theory Spec2Isabelle
  imports Complex_Main
begin

section \<open>The Elo rating model and its optimizer (package mrelo)\<close>

text \<open>
  Conventions of this development.
  \<^item> In the first embedding Python floats are real numbers without rounding. The range
    of the doubles is kept where Python raises on leaving it: \<open>math.pow\<close> and \<open>**\<close> raise
    \<open>OverflowError\<close> on a result that would round to infinity. The one float value that
    the code tests for explicitly, not-a-number, is kept as a value of its own (type
    \<open>number\<close>) where the code can meet it (the scores and the margin of victory).
  \<^item> Division by zero and a missing key raise as they do on Python floats and dicts.
  \<^item> Every exception is a value of type \<open>error\<close>; a function that can raise returns
    \<open>error + 'a\<close>, with \<open>Inl\<close> for the exception.
  \<^item> A configuration is a Python dict keyed by \<open>Params\<close>: a partial map.
\<close>

subsection \<open>hyperparams.py\<close>

datatype Params =
  start | elo_avg | revert | rest_mul | hfa_mod | k_start | k_end | k_rate
  | ac_mul | ac_mod | mov_mul | mov_mod

record space =
  low :: real
  high :: real
  step :: real

definition space_dict :: "real \<Rightarrow> real \<Rightarrow> real \<Rightarrow> space" where
  "space_dict l h s = \<lparr>low = l, high = h, step = s\<rparr>"

fun index :: "Params \<Rightarrow> nat" where
  "index start = 0"
| "index elo_avg = 1"
| "index revert = 2"
| "index rest_mul = 3"
| "index hfa_mod = 4"
| "index k_start = 5"
| "index k_end = 6"
| "index k_rate = 7"
| "index ac_mul = 8"
| "index ac_mod = 9"
| "index mov_mul = 10"
| "index mov_mod = 11"

fun param_space :: "Params \<Rightarrow> space" where
  "param_space start = space_dict 800 1500 5"
| "param_space elo_avg = space_dict 900 1700 5"
| "param_space revert = space_dict (5 / 100) (55 / 100) (1 / 100)"
| "param_space rest_mul = space_dict (- 25) 25 (25 / 100)"
| "param_space hfa_mod = space_dict (- 20) 120 (1 / 2)"
| "param_space k_start = space_dict 2 60 1"
| "param_space k_end = space_dict 2 60 1"
| "param_space k_rate = space_dict 4 20 1"
| "param_space ac_mul = space_dict (1 / 1000) (1 / 100) (1 / 1000)"
| "param_space ac_mod = space_dict (35 / 10) 12 (25 / 100)"
| "param_space mov_mul = space_dict (5 / 100) (95 / 100) (25 / 1000)"
| "param_space mov_mod = space_dict 0 2 (2 / 10)"

text \<open>Iteration over the enum (\<open>for g in Params\<close>) goes in index order.\<close>

definition all_params :: "Params list" where
  "all_params = [start, elo_avg, revert, rest_mul, hfa_mod, k_start, k_end, k_rate,
                 ac_mul, ac_mod, mov_mul, mov_mod]"

type_synonym config = "Params \<rightharpoonup> real"

subsection \<open>Exceptions\<close>

datatype error =
  KeyError Params      \<comment> \<open>\<open>cfg[p]\<close> on a dict without the key \<open>p\<close>\<close>
  | TeamKeyError       \<comment> \<open>\<open>team_elos[t]\<close> on a team that was never initialised\<close>
  | ZeroDivisionError  \<comment> \<open>float division by zero, \<open>0.0 ** negative\<close>\<close>
  | TypeError          \<comment> \<open>arithmetic or comparison on \<open>None\<close>\<close>
  | OverflowError      \<comment> \<open>\<open>math.pow\<close> or \<open>**\<close> with a result beyond the range of the doubles\<close>
  | IndexError         \<comment> \<open>too many indices for an array, \<open>random.choice\<close> of an empty list\<close>
  | ValueError         \<comment> \<open>raised by numpy and sklearn on input they reject\<close>
  | ComplexResult      \<comment> \<open>not an exception: \<open>**\<close> left the reals (Python returns a complex)\<close>

definition bnd :: "error + 'a \<Rightarrow> ('a \<Rightarrow> error + 'b) \<Rightarrow> error + 'b" where
  "bnd m f = (case m of Inl e \<Rightarrow> Inl e | Inr x \<Rightarrow> f x)"

text \<open>\<open>cfg[p]\<close>\<close>

definition getitem :: "config \<Rightarrow> Params \<Rightarrow> error + real" where
  "getitem cfg p = (case cfg p of None \<Rightarrow> Inl (KeyError p) | Some v \<Rightarrow> Inr v)"

text \<open>\<open>a / b\<close> on floats\<close>

definition truediv :: "real \<Rightarrow> real \<Rightarrow> error + real" where
  "truediv a b = (if b = 0 then Inl ZeroDivisionError else Inr (a / b))"

text \<open>
  A result overflows when it would round to infinity: its magnitude reaches the midpoint
  between the largest double, \<open>2 ^ 1024 - 2 ^ 971\<close>, and \<open>2 ^ 1024\<close>.
\<close>

definition float_overflow :: "real \<Rightarrow> bool" where
  "float_overflow v = (\<bar>v\<bar> \<ge> 2 ^ 1024 - 2 ^ 970)"

definition range_checked :: "real \<Rightarrow> error + real" where
  "range_checked v = (if float_overflow v then Inl OverflowError else Inr v)"

text \<open>\<open>math.pow(x, y)\<close> for a positive base \<open>x\<close>, its only use here.\<close>

definition math_pow :: "real \<Rightarrow> real \<Rightarrow> error + real" where
  "math_pow x y = range_checked (x powr y)"

text \<open>
  \<open>a ** b\<close> on floats: anything to the power 0 is 1; 0 to a negative power raises; a
  negative base with a fractional exponent gives a complex number.
\<close>

definition float_pow :: "real \<Rightarrow> real \<Rightarrow> error + real" where
  "float_pow a b =
     (if b = 0 then Inr 1
      else if a = 0 then (if b < 0 then Inl ZeroDivisionError else Inr 0)
      else if a < 0 then
        (if of_int \<lfloor>b\<rfloor> = b then range_checked (power_int a \<lfloor>b\<rfloor>)
         else Inl ComplexResult)
      else range_checked (a powr b))"

subsection \<open>elo.py\<close>

text \<open>\<open>1.0 / (math.pow(10, (-rating_diff / 400)) + 1)\<close>\<close>

definition elo_probability :: "real \<Rightarrow> error + real" where
  "elo_probability rating_diff =
     bnd (math_pow 10 (- rating_diff / 400)) (\<lambda>v. Inr (1 / (v + 1)))"

text \<open>
  The number of games played is an int or \<open>None\<close>. The test \<open>n > 0 or n is None\<close>
  evaluates \<open>n > 0\<close> first, which raises on \<open>None\<close>. The configuration is a dict, as
  every caller passes one.
\<close>

definition shift_elo_pre :: "real \<Rightarrow> int option \<Rightarrow> config \<Rightarrow> error + real" where
  "shift_elo_pre elo_pre n cfg =
     (case n of
        None \<Rightarrow> Inl TypeError
      | Some k \<Rightarrow>
          if k > 0 then Inr 0
          else
            (case cfg elo_avg of
               None \<Rightarrow> Inr (elo_pre - elo_pre)
             | Some avg \<Rightarrow>
                 bnd (getitem cfg revert) (\<lambda>rv.
                   let reverted_elo = avg * rv;
                       existing_elo = elo_pre * (1 - rv);
                       elo_post = reverted_elo + existing_elo
                   in Inr (elo_post - elo_pre))))"

definition calc_pre_diff :: "real \<Rightarrow> real \<Rightarrow> int \<Rightarrow> int \<Rightarrow> bool \<Rightarrow> config \<Rightarrow> real" where
  "calc_pre_diff elo_pre1 elo_pre2 rest1 rest2 is_neutral cfg =
     (let rating_diff = elo_pre1 - elo_pre2;
          rating_diff =
            (if \<not> is_neutral \<and> hfa_mod \<in> dom cfg then rating_diff + the (cfg hfa_mod)
             else rating_diff);
          rating_diff =
            (if rest_mul \<in> dom cfg
             then rating_diff + the (cfg rest_mul) * real_of_int (rest1 - rest2)
             else rating_diff)
      in rating_diff)"

text \<open>\<open>n_adj = (n1 + n2) / 2\<close>, on ints or \<open>None\<close>\<close>

definition n_adj :: "int option \<Rightarrow> int option \<Rightarrow> error + real" where
  "n_adj n1 n2 =
     (case (n1, n2) of
        (Some a, Some b) \<Rightarrow> Inr (real_of_int (a + b) / 2)
      | _ \<Rightarrow> Inl TypeError)"

definition shift_elo_post ::
  "real \<Rightarrow> real \<Rightarrow> int option \<Rightarrow> int option \<Rightarrow> config \<Rightarrow> bool \<Rightarrow> error + real" where
  "shift_elo_post rating_diff mov n1 n2 cfg ac_mov_log =
     (let winner_r_diff =
            (if mov > 0 then rating_diff else if mov = 0 then 0 else - rating_diff)
      in
      bnd (case cfg ac_mod of
             None \<Rightarrow> Inr 1
           | Some acm \<Rightarrow>
               bnd (getitem cfg ac_mul) (\<lambda>acl. truediv acm (winner_r_diff * acl + acm)))
        (\<lambda>ac_adj.
      bnd (case cfg mov_mul of
             None \<Rightarrow> Inr 1
           | Some mm \<Rightarrow>
               if ac_mov_log then
                 (let abs_mov = max \<bar>mov\<bar> 1
                  in bnd (getitem cfg mov_mod) (\<lambda>md. Inr (mm * ln abs_mov + md)))
               else bnd (getitem cfg mov_mod) (\<lambda>md. float_pow (mov + md) mm))
        (\<lambda>mov_mult.
      bnd (elo_probability rating_diff) (\<lambda>win_prob1.
      let win1 = (if mov > 0 then 1 else 0);
          expectation_adj = win1 - win_prob1
      in
      bnd (getitem cfg k_start) (\<lambda>k0.
      bnd (case cfg k_rate of
             None \<Rightarrow> Inr k0
           | Some kr \<Rightarrow>
               bnd (n_adj n1 n2) (\<lambda>na. if na \<le> kr then Inr k0 else getitem cfg k_end))
        (\<lambda>k. Inr (k * expectation_adj * mov_mult * ac_adj)))))))"

text \<open>The margin of victory is a float that may be not-a-number.\<close>

datatype number = NaN | Num real

type_synonym match_result = "real \<times> real \<times> real \<times> real \<times> real"

definition calc_elo ::
  "config \<Rightarrow> real \<Rightarrow> real \<Rightarrow> number \<Rightarrow> int option \<Rightarrow> int option \<Rightarrow> int \<Rightarrow> int \<Rightarrow> bool
     \<Rightarrow> error + match_result" where
  "calc_elo cfg elo_pre1 elo_pre2 mov n1 n2 rest1 rest2 neutral =
     bnd (shift_elo_pre elo_pre1 n1 cfg) (\<lambda>s1.
     bnd (shift_elo_pre elo_pre2 n2 cfg) (\<lambda>s2.
     let elo_pre1 = elo_pre1 + s1;
         elo_pre2 = elo_pre2 + s2;
         pre_diff = calc_pre_diff elo_pre1 elo_pre2 rest1 rest2 neutral cfg
     in
     bnd (case mov of
            NaN \<Rightarrow> Inr 0
          | Num m \<Rightarrow> if m \<noteq> 0 then shift_elo_post pre_diff m n1 n2 cfg True else Inr 0)
       (\<lambda>post_shift.
     let elo_post1 = elo_pre1 + post_shift;
         elo_post2 = elo_pre2 - post_shift
     in
     bnd (elo_probability pre_diff) (\<lambda>elo_prob1.
       Inr (elo_pre1, elo_pre2, elo_post1, elo_post2, elo_prob1)))))"

subsection \<open>optimizer.py: replaying a season\<close>

text \<open>
  One row of the DataFrame, in the order of \<open>cols\<close>; \<open>win1\<close> is the outcome column that
  the fitness function reads. A score is a float that may be not-a-number.
\<close>

record 'team match_row =
  fr_team1 :: 'team
  fr_team2 :: 'team
  score1 :: number
  score2 :: number
  played1 :: "int option"
  played2 :: "int option"
  rest1 :: int
  rest2 :: int
  neutral :: bool
  win1 :: real

type_synonym 'team team_elos = "'team \<rightharpoonup> real"

fun num_sub :: "number \<Rightarrow> number \<Rightarrow> number" where
  "num_sub (Num a) (Num b) = Num (a - b)"
| "num_sub _ _ = NaN"

text \<open>\<open>Series.unique()\<close>: the distinct values in order of first appearance.\<close>

definition unique :: "'a list \<Rightarrow> 'a list" where
  "unique xs = rev (fold (\<lambda>x seen. if x \<in> set seen then seen else x # seen) xs [])"

definition all_teams :: "'team match_row list \<Rightarrow> 'team list" where
  "all_teams df = unique (map fr_team1 df @ map fr_team2 df)"

text \<open>\<open>for t in all_teams: team_elos[t] = cfg[Params.start]\<close>\<close>

fun init_teams :: "config \<Rightarrow> 'team list \<Rightarrow> 'team team_elos \<Rightarrow> error + 'team team_elos" where
  "init_teams cfg [] team_elos = Inr team_elos"
| "init_teams cfg (t # ts) team_elos =
     bnd (getitem cfg start) (\<lambda>s. init_teams cfg ts (team_elos(t \<mapsto> s)))"

text \<open>\<open>team_elos[t]\<close>\<close>

definition team_getitem :: "'team team_elos \<Rightarrow> 'team \<Rightarrow> error + real" where
  "team_getitem team_elos t =
     (case team_elos t of None \<Rightarrow> Inl TeamKeyError | Some v \<Rightarrow> Inr v)"

text \<open>The loop of \<open>enrich_elo_vec\<close>; its body mutates \<open>team_elos\<close> and appends to \<open>results\<close>.\<close>

fun enrich_elo_vec_loop ::
  "config \<Rightarrow> 'team team_elos \<Rightarrow> 'team match_row list \<Rightarrow> match_result list
     \<Rightarrow> error + match_result list" where
  "enrich_elo_vec_loop cfg team_elos [] results = Inr results"
| "enrich_elo_vec_loop cfg team_elos (vals # values) results =
     (let team1 = fr_team1 vals; team2 = fr_team2 vals;
          mov = num_sub (score1 vals) (score2 vals)
      in
      bnd (team_getitem team_elos team1) (\<lambda>e1.
      bnd (team_getitem team_elos team2) (\<lambda>e2.
      bnd (calc_elo cfg e1 e2 mov (played1 vals) (played2 vals) (rest1 vals) (rest2 vals)
             (neutral vals))
        (\<lambda>r.
      case r of (pre1, pre2, post1, post2, prob1) \<Rightarrow>
        let team_elos = team_elos(team1 \<mapsto> post1);
            team_elos = team_elos(team2 \<mapsto> post2)
        in enrich_elo_vec_loop cfg team_elos values (results @ [r])))))"

definition enrich_elo_vec :: "'team match_row list \<Rightarrow> config \<Rightarrow> error + match_result list" where
  "enrich_elo_vec df cfg =
     bnd (init_teams cfg (all_teams df) Map.empty) (\<lambda>team_elos.
       enrich_elo_vec_loop cfg team_elos df [])"

text \<open>
  What \<open>itertools.accumulate\<close> iterates over and yields in \<open>enrich_elo\<close>: the padding row
  of zeros, the rows of the DataFrame, and the tuples that the enricher returns.
\<close>

datatype 'team item = Zeros | Vals "'team match_row" | Res match_result

text \<open>
  The closure returned by \<open>stateful_enricher\<close>. It ignores the accumulated value and reads
  \<open>vals\<close> as a row; \<open>accumulate\<close> hands it rows of the DataFrame only (on anything else
  the lookup of the teams would fail).
\<close>

definition wrapped ::
  "config \<Rightarrow> 'team team_elos \<Rightarrow> 'team item \<Rightarrow> 'team item
     \<Rightarrow> error + ('team team_elos \<times> 'team item)" where
  "wrapped cfg team_elos acc vals =
     (case vals of
        Vals v \<Rightarrow>
          (let team1 = fr_team1 v; team2 = fr_team2 v;
               mov = num_sub (score1 v) (score2 v)
           in
           bnd (team_getitem team_elos team1) (\<lambda>e1.
           bnd (team_getitem team_elos team2) (\<lambda>e2.
           bnd (calc_elo cfg e1 e2 mov (played1 v) (played2 v) (rest1 v) (rest2 v) (neutral v))
             (\<lambda>r.
           case r of (pre1, pre2, post1, post2, prob1) \<Rightarrow>
             let team_elos = team_elos(team1 \<mapsto> post1);
                 team_elos = team_elos(team2 \<mapsto> post2)
             in Inr (team_elos, Res r)))))
      | _ \<Rightarrow> Inl TeamKeyError)"

text \<open>
  \<open>itertools.accumulate(iterable, func)\<close>, run to the end by \<open>list\<close>: the first element is
  yielded as it is, then \<open>total = func(total, element)\<close> for each further element. The
  function may change the state it closes over, and an exception ends the iteration.
\<close>

fun accumulate_from ::
  "('s \<Rightarrow> 'a \<Rightarrow> 'a \<Rightarrow> error + ('s \<times> 'a)) \<Rightarrow> 's \<Rightarrow> 'a \<Rightarrow> 'a list \<Rightarrow> error + ('s \<times> 'a list)" where
  "accumulate_from func s tot [] = Inr (s, [])"
| "accumulate_from func s tot (element # rest) =
     bnd (func s tot element) (\<lambda>(s', tot').
     bnd (accumulate_from func s' tot' rest) (\<lambda>(s'', yielded).
       Inr (s'', tot' # yielded)))"

definition accumulate ::
  "('s \<Rightarrow> 'a \<Rightarrow> 'a \<Rightarrow> error + ('s \<times> 'a)) \<Rightarrow> 's \<Rightarrow> 'a list \<Rightarrow> error + ('s \<times> 'a list)" where
  "accumulate func s iterable =
     (case iterable of
        [] \<Rightarrow> Inr (s, [])
      | tot # rest \<Rightarrow>
          bnd (accumulate_from func s tot rest) (\<lambda>(s', yielded). Inr (s', tot # yielded)))"

text \<open>\<open>numpy.array\<close> of the yielded tuples: each must be a five-tuple.\<close>

fun to_array :: "'team item list \<Rightarrow> error + match_result list" where
  "to_array [] = Inr []"
| "to_array (Res r # xs) = bnd (to_array xs) (\<lambda>rs. Inr (r # rs))"
| "to_array (_ # xs) = Inl ValueError"

definition enrich_elo :: "'team match_row list \<Rightarrow> config \<Rightarrow> error + match_result list" where
  "enrich_elo df cfg =
     bnd (init_teams cfg (all_teams df) Map.empty) (\<lambda>team_elos.
       let values = Zeros # map Vals df
       in bnd (accumulate (wrapped cfg) team_elos values) (\<lambda>(team_elos', results).
            to_array (tl results)))"

subsection \<open>optimizer.py: fitness and search\<close>

text \<open>A fitness score is a float that may be minus infinity.\<close>

datatype fscore = NegInf | Score real

fun score_gt :: "fscore \<Rightarrow> fscore \<Rightarrow> bool" where
  "score_gt (Score a) (Score b) = (a > b)"
| "score_gt (Score a) NegInf = True"
| "score_gt NegInf _ = False"

definition score_le :: "fscore \<Rightarrow> fscore \<Rightarrow> bool" where
  "score_le a b = (\<not> score_gt a b)"

text \<open>The dict \<open>model._best\<close>: \<open>{'score': -math.inf}\<close> at first, four scores afterwards.\<close>

record best_scores =
  best_score :: fscore
  best_r2 :: "real option"
  best_ll :: "real option"
  best_ac :: "real option"

text \<open>
  The attributes \<open>_i\<close>, \<open>_valid\<close>, \<open>_best\<close>, \<open>_best_config\<close> and \<open>_data\<close> of \<open>ModelMeta\<close>;
  \<open>_genes\<close> is always \<open>Params\<close>, here \<open>all_params\<close>.
\<close>

record 'team ModelMeta =
  meta_i :: nat
  meta_valid :: nat
  meta_best :: best_scores
  meta_best_config :: "config option"
  meta_data :: "'team match_row list"

definition ModelMeta_init :: "'team match_row list \<Rightarrow> 'team ModelMeta" where
  "ModelMeta_init d =
     \<lparr>meta_i = 0, meta_valid = 0,
      meta_best = \<lparr>best_score = NegInf, best_r2 = None, best_ll = None, best_ac = None\<rparr>,
      meta_best_config = None, meta_data = d\<rparr>"

text \<open>
  The three functions of \<open>sklearn.metrics\<close> that the fitness function calls are outside
  the repository: they are parameters, each from the true and the predicted column to a
  score or an exception.
\<close>

record sklearn_metrics =
  r2_score :: "real list \<Rightarrow> real list \<Rightarrow> error + real"
  log_loss :: "real list \<Rightarrow> real list \<Rightarrow> error + real"
  accuracy_score :: "real list \<Rightarrow> real list \<Rightarrow> error + real"

text \<open>\<open>ndarray.round()\<close>: to the nearest integer, halves to the even one.\<close>

definition np_round :: "real \<Rightarrow> real" where
  "np_round x =
     (let f = \<lfloor>x\<rfloor>; d = x - of_int f
      in if d < 1 / 2 then of_int f
         else if d > 1 / 2 then of_int (f + 1)
         else if even f then of_int f else of_int (f + 1))"

text \<open>
  \<open>tuple_to_dict(solution, model._genes)\<close> on a solution that is a dict: the key at
  position \<open>i\<close> of \<open>Params\<close> is the parameter of index \<open>i\<close>, so \<open>tup[i]\<close> reads that key.
\<close>

fun tuple_to_dict_from :: "config \<Rightarrow> Params list \<Rightarrow> config \<Rightarrow> error + config" where
  "tuple_to_dict_from tup [] d = Inr d"
| "tuple_to_dict_from tup (k # keys) d =
     bnd (getitem tup k) (\<lambda>v. tuple_to_dict_from tup keys (d(k \<mapsto> v)))"

definition tuple_to_dict :: "config \<Rightarrow> Params list \<Rightarrow> error + config" where
  "tuple_to_dict tup keys = tuple_to_dict_from tup keys Map.empty"

text \<open>\<open>results[:, -1]\<close>: the last column; an array without rows has one dimension only.\<close>

definition last_column :: "match_result list \<Rightarrow> error + real list" where
  "last_column results =
     (if results = [] then Inl IndexError
      else Inr (map (\<lambda>(pre1, pre2, post1, post2, prob1). prob1) results))"

text \<open>
  \<open>fitness_func\<close>, as returned by \<open>fitness_func_wrapper(forecaster)\<close>, in two parts. The model
  is shared and changed in place; the score, the predictions and the outcome of the test
  \<open>score > model._best['score']\<close> are local to the call. Printing the solution is left out.
\<close>

text \<open>
  What a call holds after the test: it has returned (a score, minus infinity, or an
  exception), or it has found its score greater than the best and goes on to record it.
\<close>

datatype pending = Returned "error + fscore" | Improved real "real list" "real list"

text \<open>
  The first part, up to the test. Only \<open>OverflowError\<close> from the forecaster is caught.
\<close>

definition fitness_check ::
  "('team match_row list \<Rightarrow> config \<Rightarrow> error + match_result list) \<Rightarrow> sklearn_metrics
     \<Rightarrow> 'team ModelMeta \<Rightarrow> config \<Rightarrow> 'team ModelMeta \<times> pending" where
  "fitness_check forecaster metrics model solution =
     (let df = meta_data model;
          model = model\<lparr>meta_i := meta_i model + 1\<rparr>
      in
      case forecaster df solution of
        Inl e \<Rightarrow>
          (if e = OverflowError then (model, Returned (Inr NegInf))
           else (model, Returned (Inl e)))
      | Inr results \<Rightarrow>
          (let model = model\<lparr>meta_valid := meta_valid model + 1\<rparr>
           in
           case last_column results of
             Inl e \<Rightarrow> (model, Returned (Inl e))
           | Inr elo_prob1 \<Rightarrow>
               (case r2_score metrics (map win1 df) elo_prob1 of
                  Inl e \<Rightarrow> (model, Returned (Inl e))
                | Inr score \<Rightarrow>
                    (let predicted = map np_round elo_prob1
                     in
                     if score_gt (Score score) (best_score (meta_best model))
                     then (model, Improved score elo_prob1 predicted)
                     else (model, Returned (Inr (Score score)))))))"

text \<open>The second part: the body of the \<open>if\<close>, which records the new best, and the return.\<close>

definition fitness_record ::
  "sklearn_metrics \<Rightarrow> 'team ModelMeta \<Rightarrow> config \<Rightarrow> real \<Rightarrow> real list \<Rightarrow> real list
     \<Rightarrow> 'team ModelMeta \<times> (error + fscore)" where
  "fitness_record metrics model solution score elo_prob1 predicted =
     (let df = meta_data model
      in
      case log_loss metrics (map win1 df) elo_prob1 of
        Inl e \<Rightarrow> (model, Inl e)
      | Inr ll \<Rightarrow>
          (case accuracy_score metrics (map win1 df) predicted of
             Inl e \<Rightarrow> (model, Inl e)
           | Inr ac \<Rightarrow>
               (let scores =
                      \<lparr>best_score = Score score, best_r2 = Some score,
                       best_ll = Some ll, best_ac = Some ac\<rparr>;
                    model = model\<lparr>meta_best := scores\<rparr>
                in
                case tuple_to_dict solution all_params of
                  Inl e \<Rightarrow> (model, Inl e)
                | Inr config \<Rightarrow>
                    (model\<lparr>meta_best_config := Some config\<rparr>, Inr (Score score)))))"

definition resume ::
  "sklearn_metrics \<Rightarrow> 'team ModelMeta \<Rightarrow> config \<Rightarrow> pending
     \<Rightarrow> 'team ModelMeta \<times> (error + fscore)" where
  "resume metrics model solution p =
     (case p of
        Returned r \<Rightarrow> (model, r)
      | Improved score elo_prob1 predicted \<Rightarrow>
          fitness_record metrics model solution score elo_prob1 predicted)"

text \<open>One call that runs alone: the second part follows the first on the same model.\<close>

definition fitness_func ::
  "('team match_row list \<Rightarrow> config \<Rightarrow> error + match_result list) \<Rightarrow> sklearn_metrics
     \<Rightarrow> 'team ModelMeta \<Rightarrow> config \<Rightarrow> 'team ModelMeta \<times> (error + fscore)" where
  "fitness_func forecaster metrics model solution =
     (case fitness_check forecaster metrics model solution of
        (model, p) \<Rightarrow> resume metrics model solution p)"

text \<open>
  \<open>ga_optimize\<close> hands \<open>fitness_func\<close> to the engine with
  \<open>parallel_processing=["thread", 10]\<close>: calls on the one model may run on several threads
  at a time, and nothing guards the test and the recording. One schedule of two such
  calls: both pass the test before either records, and the call that tested first
  records last. The result is the model after the first recording and after the second.
\<close>

definition overlapped ::
  "('team match_row list \<Rightarrow> config \<Rightarrow> error + match_result list) \<Rightarrow> sklearn_metrics
     \<Rightarrow> 'team ModelMeta \<Rightarrow> config \<Rightarrow> config \<Rightarrow> 'team ModelMeta \<times> 'team ModelMeta" where
  "overlapped forecaster metrics model solution1 solution2 =
     (case fitness_check forecaster metrics model solution1 of (model, p1) \<Rightarrow>
      case fitness_check forecaster metrics model solution2 of (model, p2) \<Rightarrow>
      case resume metrics model solution2 p2 of (model_after2, r2) \<Rightarrow>
      case resume metrics model_after2 solution1 p1 of (model_after1, r1) \<Rightarrow>
        (model_after2, model_after1))"

text \<open>
  \<open>numpy.arange(low, high, step)\<close>: \<open>ceil((high - low) / step)\<close> values from \<open>low\<close> in steps
  of \<open>step\<close>, none if that count is negative. A zero step is rejected with an exception.
\<close>

definition arange :: "real \<Rightarrow> real \<Rightarrow> real \<Rightarrow> error + real list" where
  "arange lo hi st =
     (if st = 0 then Inl ValueError
      else Inr (map (\<lambda>k. lo + real k * st) [0 ..< nat \<lceil>(hi - lo) / st\<rceil>]))"

text \<open>
  The gene space: \<open>spaces.append((g, list(space_rng)))\<close> for each \<open>g\<close> in \<open>Params\<close>. Every
  declared space is a dict of \<open>low\<close>, \<open>high\<close> and \<open>step\<close>, so the branch for a space given
  as a list is never taken.
\<close>

fun get_gene_space :: "Params list \<Rightarrow> error + (Params \<times> real list) list" where
  "get_gene_space [] = Inr []"
| "get_gene_space (g # gs) =
     (let sp = param_space g
      in bnd (arange (low sp) (high sp) (step sp)) (\<lambda>space_rng.
         bnd (get_gene_space gs) (\<lambda>spaces. Inr ((g, space_rng) # spaces))))"

text \<open>
  \<open>random.choice(s)\<close> is \<open>s[randbelow(len(s))]\<close>; the random number is an input of the
  model, reduced below the length.
\<close>

definition choice :: "nat \<Rightarrow> 'a list \<Rightarrow> error + 'a" where
  "choice rnd s = (if s = [] then Inl IndexError else Inr (s ! (rnd mod length s)))"

text \<open>
  \<open>{g: random.choice(s) for g, s in spaces}\<close>; a draw gives the random number used for
  each parameter.
\<close>

fun draw_config ::
  "(Params \<Rightarrow> nat) \<Rightarrow> (Params \<times> real list) list \<Rightarrow> config \<Rightarrow> error + config" where
  "draw_config rnd [] config = Inr config"
| "draw_config rnd ((g, s) # spaces) config =
     bnd (choice (rnd g) s) (\<lambda>v. draw_config rnd spaces (config(g \<mapsto> v)))"

text \<open>
  The loop \<open>for _ in range(num_gens)\<close> of \<open>random_optimize\<close>, one draw for each generation;
  the score that \<open>fitness_func\<close> returns is dropped, an exception ends the run.
\<close>

fun optimize_loop ::
  "sklearn_metrics \<Rightarrow> (Params \<times> real list) list \<Rightarrow> 'team ModelMeta \<Rightarrow> (Params \<Rightarrow> nat) list
     \<Rightarrow> error + 'team ModelMeta" where
  "optimize_loop metrics spaces model [] = Inr model"
| "optimize_loop metrics spaces model (rnd # draws) =
     bnd (draw_config rnd spaces Map.empty) (\<lambda>config.
       case fitness_func enrich_elo metrics model config of
         (model', Inl e) \<Rightarrow> Inl e
       | (model', Inr score) \<Rightarrow> optimize_loop metrics spaces model' draws)"

definition random_optimize ::
  "sklearn_metrics \<Rightarrow> 'team match_row list \<Rightarrow> (Params \<Rightarrow> nat) list \<Rightarrow> error + config option" where
  "random_optimize metrics df draws =
     bnd (get_gene_space all_params) (\<lambda>spaces.
     bnd (optimize_loop metrics spaces (ModelMeta_init df) draws) (\<lambda>model.
       Inr (meta_best_config model)))"

subsection \<open>The run of evaluations\<close>

text \<open>
  The models after each call of \<open>fitness_func\<close> on a sequence of solutions, each call
  starting from the model the previous one left; an exception ends the sequence.
\<close>

fun evaluations ::
  "('team match_row list \<Rightarrow> config \<Rightarrow> error + match_result list) \<Rightarrow> sklearn_metrics
     \<Rightarrow> 'team ModelMeta \<Rightarrow> config list \<Rightarrow> 'team ModelMeta list" where
  "evaluations forecaster metrics model [] = []"
| "evaluations forecaster metrics model (solution # solutions) =
     (case fitness_func forecaster metrics model solution of
        (model', Inl e) \<Rightarrow> [model']
      | (model', Inr score) \<Rightarrow> model' # evaluations forecaster metrics model' solutions)"

subsection \<open>The specification's wording of the post-match shift\<close>

text \<open>
  The terms of the post-match shift as the specification words them, each a formula of
  the configuration. A term has no value (\<open>None\<close>) where the specification calls the
  configuration or the arithmetic in error: a key it needs is missing, the denominator
  is zero, the power is not a real number or leaves the range.
\<close>

definition spec_winner_diff :: "real \<Rightarrow> real \<Rightarrow> real" where
  "spec_winner_diff diff margin =
     (if margin > 0 then diff else if margin = 0 then 0 else - diff)"

definition spec_ac :: "config \<Rightarrow> real \<Rightarrow> real \<Rightarrow> real option" where
  "spec_ac cfg diff margin =
     (case cfg ac_mod of
        None \<Rightarrow> Some 1
      | Some acm \<Rightarrow>
          (case cfg ac_mul of
             None \<Rightarrow> None
           | Some acl \<Rightarrow>
               if spec_winner_diff diff margin * acl + acm = 0 then None
               else Some (acm / (spec_winner_diff diff margin * acl + acm))))"

definition spec_power :: "real \<Rightarrow> real \<Rightarrow> real option" where
  "spec_power a b = (case float_pow a b of Inl e \<Rightarrow> None | Inr v \<Rightarrow> Some v)"

definition spec_mov_mult :: "config \<Rightarrow> real \<Rightarrow> bool \<Rightarrow> real option" where
  "spec_mov_mult cfg margin logarithmic =
     (case cfg mov_mul of
        None \<Rightarrow> Some 1
      | Some mm \<Rightarrow>
          (case cfg mov_mod of
             None \<Rightarrow> None
           | Some md \<Rightarrow>
               if logarithmic then Some (mm * ln (max \<bar>margin\<bar> 1) + md)
               else spec_power (margin + md) mm))"

definition spec_win_probability :: "real \<Rightarrow> real option" where
  "spec_win_probability diff =
     (if float_overflow (10 powr (- diff / 400)) then None
      else Some (1 / (10 powr (- diff / 400) + 1)))"

definition spec_expectation_error :: "real \<Rightarrow> real \<Rightarrow> real option" where
  "spec_expectation_error diff margin =
     (case spec_win_probability diff of
        None \<Rightarrow> None
      | Some p \<Rightarrow> Some ((if margin > 0 then 1 else 0) - p))"

definition spec_k :: "config \<Rightarrow> int \<Rightarrow> int \<Rightarrow> real option" where
  "spec_k cfg games1 games2 =
     (case cfg k_rate of
        Some kr \<Rightarrow>
          if real_of_int (games1 + games2) / 2 \<le> kr then cfg k_start else cfg k_end
      | None \<Rightarrow> cfg k_start)"

subsection \<open>Predicates and example inputs\<close>

text \<open>An entry of the gene space holds the range of its own parameter.\<close>

definition gene_ok :: "Params \<times> real list \<Rightarrow> bool" where
  "gene_ok p =
     (case p of (g, s) \<Rightarrow>
        arange (low (param_space g)) (high (param_space g)) (step (param_space g)) = Inr s)"

text \<open>
  A full configuration with every value a candidate of its declared range, and the
  random numbers with which \<open>random_optimize\<close> draws it. One match between two teams that
  have played before, at a neutral venue, won 1-0 by the first; the rest days of the
  second team are left open.
\<close>

definition example_config :: config where
  "example_config =
     [start \<mapsto> 1000, elo_avg \<mapsto> 1500, revert \<mapsto> 1 / 10, rest_mul \<mapsto> 20, hfa_mod \<mapsto> 0,
      k_start \<mapsto> 20, k_end \<mapsto> 10, k_rate \<mapsto> 10, ac_mul \<mapsto> 5 / 1000, ac_mod \<mapsto> 35 / 10,
      mov_mul \<mapsto> 1 / 2, mov_mod \<mapsto> 1]"

fun example_draw :: "Params \<Rightarrow> nat" where
  "example_draw start = 40"
| "example_draw elo_avg = 120"
| "example_draw revert = 5"
| "example_draw rest_mul = 180"
| "example_draw hfa_mod = 40"
| "example_draw k_start = 18"
| "example_draw k_end = 8"
| "example_draw k_rate = 6"
| "example_draw ac_mul = 4"
| "example_draw ac_mod = 0"
| "example_draw mov_mul = 18"
| "example_draw mov_mod = 5"

definition example_row :: "int \<Rightarrow> string match_row" where
  "example_row rest_away =
     \<lparr>fr_team1 = ''A'', fr_team2 = ''B'', score1 = Num 1, score2 = Num 0,
      played1 = Some 1, played2 = Some 1, rest1 = 0, rest2 = rest_away, neutral = True,
      win1 = 1\<rparr>"

text \<open>
  Stand-ins for the library metrics: one minus the sum of squared errors for the skill
  score, constants for the other two.
\<close>

definition example_metrics :: sklearn_metrics where
  "example_metrics =
     \<lparr>r2_score = (\<lambda>y_true y_pred. Inr (1 - (\<Sum>(y, p)\<leftarrow>zip y_true y_pred. (y - p) ^ 2))),
      log_loss = (\<lambda>y_true y_pred. Inr 1),
      accuracy_score = (\<lambda>y_true y_pred. Inr 1)\<rparr>"

text \<open>The example configuration with the opposite rest multiplier.\<close>

definition example_config2 :: config where
  "example_config2 =
     [start \<mapsto> 1000, elo_avg \<mapsto> 1500, revert \<mapsto> 1 / 10, rest_mul \<mapsto> - 20, hfa_mod \<mapsto> 0,
      k_start \<mapsto> 20, k_end \<mapsto> 10, k_rate \<mapsto> 10, ac_mul \<mapsto> 5 / 1000, ac_mod \<mapsto> 35 / 10,
      mov_mul \<mapsto> 1 / 2, mov_mod \<mapsto> 1]"

section \<open>Properties\<close>

subsection \<open>Auxiliary facts\<close>

lemma bnd_Inr_iff: "bnd m f = Inr y \<longleftrightarrow> (\<exists>x. m = Inr x \<and> f x = Inr y)"
  by (cases m) (simp_all add: bnd_def)

lemma bnd_Inl [simp]: "bnd (Inl e) f = Inl e"
  by (simp add: bnd_def)

lemma bnd_Inr [simp]: "bnd (Inr x) f = f x"
  by (simp add: bnd_def)

lemma getitem_Inr_iff: "getitem cfg p = Inr v \<longleftrightarrow> cfg p = Some v"
  by (simp add: getitem_def split: option.splits)

lemma truediv_Inr_iff: "truediv a b = Inr v \<longleftrightarrow> b \<noteq> 0 \<and> v = a / b"
  by (auto simp: truediv_def)

lemma n_adj_Some: "n_adj (Some a) (Some b) = Inr (real_of_int (a + b) / 2)"
  by (simp add: n_adj_def)

lemma elo_probability_Inr_iff:
  "elo_probability d = Inr p \<longleftrightarrow>
     \<not> float_overflow (10 powr (- d / 400)) \<and> p = 1 / (10 powr (- d / 400) + 1)"
  by (auto simp: elo_probability_def math_pow_def range_checked_def)

lemma not_overflow_1: "\<not> float_overflow 1"
  by (simp add: float_overflow_def)

lemma elo_probability_0: "elo_probability 0 = Inr (1 / 2)"
  by (simp add: elo_probability_def math_pow_def range_checked_def not_overflow_1)

subsection \<open>The pre-match shift and differential\<close>

text \<open>
  Claim C2, as amended. For a known number of games played: the pre-match shift is 0
  when it is positive, whatever the configuration; otherwise it is 0 when \<open>elo_avg\<close> is
  absent (whether or not \<open>revert\<close> is present), it is
  \<open>(elo_avg * revert + rating * (1 - revert)) - rating\<close> when both keys are present, and
  it is the \<open>KeyError\<close> of \<open>revert\<close> when \<open>elo_avg\<close> is present and \<open>revert\<close> is not.
\<close>

theorem shift_elo_pre_cases:
  "shift_elo_pre r (Some n) cfg =
     (if n > 0 then Inr 0
      else case cfg elo_avg of
             None \<Rightarrow> Inr 0
           | Some avg \<Rightarrow>
               (case cfg revert of
                  None \<Rightarrow> Inl (KeyError revert)
                | Some rv \<Rightarrow> Inr ((avg * rv + r * (1 - rv)) - r)))"
  by (simp add: shift_elo_pre_def bnd_def getitem_def Let_def split: option.splits)

text \<open>
  The claim as first stated has a missing key as a no-op returning 0. With no games
  played, \<open>elo_avg\<close> present and \<open>revert\<close> missing, the function raises instead.
\<close>

theorem shift_elo_pre_missing_revert:
  "shift_elo_pre 2000 (Some 0) [elo_avg \<mapsto> 1000] = Inl (KeyError revert)"
  by (simp add: shift_elo_pre_def bnd_def getitem_def)

text \<open>An unknown number of games played (\<open>None\<close>) does not reach the test \<open>n is None\<close>.\<close>

lemma shift_elo_pre_unknown: "shift_elo_pre r None cfg = Inl TypeError"
  by (simp add: shift_elo_pre_def)

text \<open>
  Claim C8. The pre-match differential is \<open>rating1 - rating2\<close>, plus \<open>hfa_mod\<close> when that
  key is present and the game is not neutral, plus \<open>rest_mul * (rest1 - rest2)\<close> when that
  key is present; on ratings 1000 and 1200, rest days 2 and 5 and the configuration
  \<open>{hfa_mod: 10, rest_mul: 5}\<close> it is -205, and -215 at a neutral venue.
\<close>

theorem calc_pre_diff_formula:
  "calc_pre_diff r1 r2 d1 d2 nt cfg =
     (r1 - r2)
     + (case cfg hfa_mod of None \<Rightarrow> 0 | Some h \<Rightarrow> if nt then 0 else h)
     + (case cfg rest_mul of None \<Rightarrow> 0 | Some m \<Rightarrow> m * real_of_int (d1 - d2))
   \<and> calc_pre_diff 1000 1200 2 5 False [hfa_mod \<mapsto> 10, rest_mul \<mapsto> 5] = - 205
   \<and> calc_pre_diff 1000 1200 2 5 True [hfa_mod \<mapsto> 10, rest_mul \<mapsto> 5] = - 215"
  by (auto simp: calc_pre_diff_def Let_def dom_def split: option.splits)

subsection \<open>The post-match shift\<close>

lemma ac_term:
  "(case cfg ac_mod of
      None \<Rightarrow> Inr 1
    | Some acm \<Rightarrow>
        bnd (getitem cfg ac_mul)
          (\<lambda>acl. truediv acm (spec_winner_diff diff margin * acl + acm))) = Inr ac
   \<longleftrightarrow> spec_ac cfg diff margin = Some ac"
  by (auto simp: spec_ac_def bnd_Inr_iff getitem_Inr_iff truediv_Inr_iff getitem_def
      split: option.splits)

lemma mov_term:
  "(case cfg mov_mul of
      None \<Rightarrow> Inr 1
    | Some mm \<Rightarrow>
        if logarithmic
        then (let abs_mov = max \<bar>margin\<bar> 1
              in bnd (getitem cfg mov_mod) (\<lambda>md. Inr (mm * ln abs_mov + md)))
        else bnd (getitem cfg mov_mod) (\<lambda>md. float_pow (margin + md) mm)) = Inr mv
   \<longleftrightarrow> spec_mov_mult cfg margin logarithmic = Some mv"
  by (auto simp: spec_mov_mult_def spec_power_def Let_def bnd_Inr_iff getitem_Inr_iff
      getitem_def split: option.splits sum.splits)

lemma expectation_term:
  "(\<exists>p. elo_probability diff = Inr p \<and> ee = (if margin > 0 then 1 else 0) - p)
   \<longleftrightarrow> spec_expectation_error diff margin = Some ee"
  by (auto simp: spec_expectation_error_def spec_win_probability_def elo_probability_Inr_iff
      split: option.splits if_splits)

lemma k_term:
  "(\<exists>k0. getitem cfg k_start = Inr k0
      \<and> (case cfg k_rate of
            None \<Rightarrow> Inr k0
          | Some kr \<Rightarrow>
              bnd (n_adj (Some games1) (Some games2))
                (\<lambda>na. if na \<le> kr then Inr k0 else getitem cfg k_end)) = Inr k)
   \<longleftrightarrow> cfg k_start \<noteq> None \<and> spec_k cfg games1 games2 = Some k"
  by (auto simp: spec_k_def n_adj_Some getitem_Inr_iff getitem_def split: option.splits)

lemma shift_elo_post_unfold:
  "shift_elo_post diff margin (Some games1) (Some games2) cfg logarithmic = Inr shift
    \<longleftrightarrow> (\<exists>ac.
          (case cfg ac_mod of
             None \<Rightarrow> Inr 1
           | Some acm \<Rightarrow>
               bnd (getitem cfg ac_mul)
                 (\<lambda>acl. truediv acm (spec_winner_diff diff margin * acl + acm))) = Inr ac
        \<and> (\<exists>mv.
          (case cfg mov_mul of
             None \<Rightarrow> Inr 1
           | Some mm \<Rightarrow>
               if logarithmic
               then (let abs_mov = max \<bar>margin\<bar> 1
                     in bnd (getitem cfg mov_mod) (\<lambda>md. Inr (mm * ln abs_mov + md)))
               else bnd (getitem cfg mov_mod) (\<lambda>md. float_pow (margin + md) mm)) = Inr mv
        \<and> (\<exists>p. elo_probability diff = Inr p
        \<and> (\<exists>k0. getitem cfg k_start = Inr k0
        \<and> (\<exists>k.
          (case cfg k_rate of
             None \<Rightarrow> Inr k0
           | Some kr \<Rightarrow>
               bnd (n_adj (Some games1) (Some games2))
                 (\<lambda>na. if na \<le> kr then Inr k0 else getitem cfg k_end)) = Inr k
        \<and> k * ((if margin > 0 then 1 else 0) - p) * mv * ac = shift)))))"
  unfolding shift_elo_post_def spec_winner_diff_def
  by (simp only: bnd_Inr_iff Let_def sum.inject)

text \<open>
  Claim C6. The post-match shift returns exactly when \<open>k_start\<close> is present and each
  term of the specification has a value, and then it is the product of the K-factor,
  the expectation error, the margin-of-victory multiplier and the autocorrelation
  factor; the K-factor is \<open>k_start\<close> when \<open>k_rate\<close> is absent or
  \<open>(games1 + games2) / 2 \<le> k_rate\<close>, and \<open>k_end\<close> otherwise. On difference 0, margin 3, no
  games played and the configuration \<open>{k_start: 10}\<close> the shift is 5.
\<close>

theorem shift_elo_post_k_factor:
  "(shift_elo_post diff margin (Some games1) (Some games2) cfg logarithmic = Inr shift
      \<longleftrightarrow> (\<exists>k ee mv ac.
             cfg k_start \<noteq> None
           \<and> spec_k cfg games1 games2 = Some k
           \<and> spec_expectation_error diff margin = Some ee
           \<and> spec_mov_mult cfg margin logarithmic = Some mv
           \<and> spec_ac cfg diff margin = Some ac
           \<and> shift = k * ee * mv * ac))
   \<and> shift_elo_post 0 3 (Some 0) (Some 0) [k_start \<mapsto> 10] True = Inr 5"
proof (intro conjI iffI)
  assume "shift_elo_post diff margin (Some games1) (Some games2) cfg logarithmic = Inr shift"
  then obtain ac mv p k0 k where
    ac: "spec_ac cfg diff margin = Some ac"
    and mv: "spec_mov_mult cfg margin logarithmic = Some mv"
    and p: "elo_probability diff = Inr p"
    and k0: "getitem cfg k_start = Inr k0"
    and k: "(case cfg k_rate of
               None \<Rightarrow> Inr k0
             | Some kr \<Rightarrow>
                 bnd (n_adj (Some games1) (Some games2))
                   (\<lambda>na. if na \<le> kr then Inr k0 else getitem cfg k_end)) = Inr k"
    and s: "k * ((if margin > 0 then 1 else 0) - p) * mv * ac = shift"
    unfolding shift_elo_post_unfold ac_term mov_term by blast
  from p have ee: "spec_expectation_error diff margin
                     = Some ((if margin > 0 then 1 else 0) - p)"
    using expectation_term [of diff "(if margin > 0 then 1 else 0) - p" margin] by blast
  from k0 k have kk: "cfg k_start \<noteq> None \<and> spec_k cfg games1 games2 = Some k"
    using k_term [of cfg games1 games2 k] by blast
  show "\<exists>k ee mv ac.
             cfg k_start \<noteq> None
           \<and> spec_k cfg games1 games2 = Some k
           \<and> spec_expectation_error diff margin = Some ee
           \<and> spec_mov_mult cfg margin logarithmic = Some mv
           \<and> spec_ac cfg diff margin = Some ac
           \<and> shift = k * ee * mv * ac"
    using kk ee mv ac s by blast
next
  assume "\<exists>k ee mv ac.
             cfg k_start \<noteq> None
           \<and> spec_k cfg games1 games2 = Some k
           \<and> spec_expectation_error diff margin = Some ee
           \<and> spec_mov_mult cfg margin logarithmic = Some mv
           \<and> spec_ac cfg diff margin = Some ac
           \<and> shift = k * ee * mv * ac"
  then obtain k ee mv ac where
    kk: "cfg k_start \<noteq> None \<and> spec_k cfg games1 games2 = Some k"
    and ee: "spec_expectation_error diff margin = Some ee"
    and mv: "spec_mov_mult cfg margin logarithmic = Some mv"
    and ac: "spec_ac cfg diff margin = Some ac"
    and s: "shift = k * ee * mv * ac"
    by blast
  from ee obtain p where p: "elo_probability diff = Inr p"
    and eep: "ee = (if margin > 0 then 1 else 0) - p"
    using expectation_term [of diff ee margin] by blast
  from kk obtain k0 where k0: "getitem cfg k_start = Inr k0"
    and k: "(case cfg k_rate of
               None \<Rightarrow> Inr k0
             | Some kr \<Rightarrow>
                 bnd (n_adj (Some games1) (Some games2))
                   (\<lambda>na. if na \<le> kr then Inr k0 else getitem cfg k_end)) = Inr k"
    using k_term [of cfg games1 games2 k] by blast
  have "k * ((if margin > 0 then 1 else 0) - p) * mv * ac = shift"
    using s eep by simp
  with ac mv p k0 k
  show "shift_elo_post diff margin (Some games1) (Some games2) cfg logarithmic = Inr shift"
    unfolding shift_elo_post_unfold ac_term mov_term by blast
next
  show "shift_elo_post 0 3 (Some 0) (Some 0) [k_start \<mapsto> 10] True = Inr 5"
    by (simp add: shift_elo_post_def getitem_def elo_probability_0)
qed

text \<open>
  At 4 and 6 games played and \<open>k_rate = 3\<close> the K-factor has decayed to \<open>k_end\<close>: the shift
  of an even match won by 3 is \<open>4 * (1 - 1/2)\<close>.
\<close>

theorem shift_elo_post_k_factor_witness:
  "shift_elo_post 0 3 (Some 4) (Some 6) [k_start \<mapsto> 10, k_end \<mapsto> 4, k_rate \<mapsto> 3] True = Inr 2
   \<and> spec_k [k_start \<mapsto> 10, k_end \<mapsto> 4, k_rate \<mapsto> 3] 4 6 = Some 4
   \<and> spec_expectation_error 0 3 = Some (1 / 2)
   \<and> spec_mov_mult [k_start \<mapsto> 10, k_end \<mapsto> 4, k_rate \<mapsto> 3] 3 True = Some 1
   \<and> spec_ac [k_start \<mapsto> 10, k_end \<mapsto> 4, k_rate \<mapsto> 3] 0 3 = Some 1"
proof -
  have k: "spec_k [k_start \<mapsto> 10, k_end \<mapsto> 4, k_rate \<mapsto> 3] 4 6 = Some 4"
    by (simp add: spec_k_def)
  have ee: "spec_expectation_error 0 3 = Some (1 / 2)"
    by (simp add: spec_expectation_error_def spec_win_probability_def not_overflow_1)
  have mv: "spec_mov_mult [k_start \<mapsto> 10, k_end \<mapsto> 4, k_rate \<mapsto> 3] 3 True = Some 1"
    by (simp add: spec_mov_mult_def)
  have ac: "spec_ac [k_start \<mapsto> 10, k_end \<mapsto> 4, k_rate \<mapsto> 3] 0 3 = Some 1"
    by (simp add: spec_ac_def)
  have "\<exists>k ee mv ac.
          [k_start \<mapsto> 10, k_end \<mapsto> 4, k_rate \<mapsto> 3] k_start \<noteq> None
        \<and> spec_k [k_start \<mapsto> 10, k_end \<mapsto> 4, k_rate \<mapsto> 3] 4 6 = Some k
        \<and> spec_expectation_error 0 3 = Some ee
        \<and> spec_mov_mult [k_start \<mapsto> 10, k_end \<mapsto> 4, k_rate \<mapsto> 3] 3 True = Some mv
        \<and> spec_ac [k_start \<mapsto> 10, k_end \<mapsto> 4, k_rate \<mapsto> 3] 0 3 = Some ac
        \<and> (2 :: real) = k * ee * mv * ac"
    by (rule exI [of _ 4], rule exI [of _ "1 / 2"], rule exI [of _ 1], rule exI [of _ 1])
       (simp add: k ee mv ac)
  then have "shift_elo_post 0 3 (Some 4) (Some 6) [k_start \<mapsto> 10, k_end \<mapsto> 4, k_rate \<mapsto> 3] True
             = Inr 2"
    using shift_elo_post_k_factor
      [of 0 3 4 6 "[k_start \<mapsto> 10, k_end \<mapsto> 4, k_rate \<mapsto> 3]" True 2]
    by blast
  with k ee mv ac show ?thesis by blast
qed

subsection \<open>The full pipeline\<close>

text \<open>
  Claim C4. When the margin is 0 or not-a-number, the pipeline does not compute a
  post-match shift: its result is that of the two pre-match shifts and the win
  probability alone, and each post-match rating it returns is the adjusted pre-match
  rating.
\<close>

theorem calc_elo_no_result:
  "mov = NaN \<or> mov = Num 0 \<Longrightarrow>
   calc_elo cfg e1 e2 mov n1 n2 d1 d2 nt =
     bnd (shift_elo_pre e1 n1 cfg) (\<lambda>s1.
     bnd (shift_elo_pre e2 n2 cfg) (\<lambda>s2.
     bnd (elo_probability (calc_pre_diff (e1 + s1) (e2 + s2) d1 d2 nt cfg)) (\<lambda>prob1.
       Inr (e1 + s1, e2 + s2, e1 + s1, e2 + s2, prob1))))
   \<and> (\<forall>pre1 pre2 post1 post2 prob1.
        calc_elo cfg e1 e2 mov n1 n2 d1 d2 nt = Inr (pre1, pre2, post1, post2, prob1)
        \<longrightarrow> post1 = pre1 \<and> post2 = pre2)"
proof -
  assume m: "mov = NaN \<or> mov = Num 0"
  have eq: "calc_elo cfg e1 e2 mov n1 n2 d1 d2 nt =
     bnd (shift_elo_pre e1 n1 cfg) (\<lambda>s1.
     bnd (shift_elo_pre e2 n2 cfg) (\<lambda>s2.
     bnd (elo_probability (calc_pre_diff (e1 + s1) (e2 + s2) d1 d2 nt cfg)) (\<lambda>prob1.
       Inr (e1 + s1, e2 + s2, e1 + s1, e2 + s2, prob1))))"
    using m by (auto simp: calc_elo_def Let_def)
  have "post1 = pre1 \<and> post2 = pre2"
    if "calc_elo cfg e1 e2 mov n1 n2 d1 d2 nt = Inr (pre1, pre2, post1, post2, prob1)"
    for pre1 pre2 post1 post2 prob1
  proof -
    from that obtain s1 s2 p where
      "(pre1, pre2, post1, post2, prob1) = (e1 + s1, e2 + s2, e1 + s1, e2 + s2, p)"
      unfolding eq bnd_Inr_iff by auto
    then show ?thesis by simp
  qed
  with eq show ?thesis by blast
qed

text \<open>
  A match without a result, between two teams at rating 1000 that have not played
  yet: both revert half-way to 1500 and stay there. The configuration has no
  \<open>k_start\<close>, which a post-match shift would need.
\<close>

theorem calc_elo_no_result_witness:
  "(NaN = NaN \<or> NaN = Num 0)
   \<and> calc_elo [elo_avg \<mapsto> 1500, revert \<mapsto> 1 / 2] 1000 1000 NaN (Some 0) (Some 0) 0 0 False
       = Inr (1250, 1250, 1250, 1250, 1 / 2)
   \<and> calc_elo [elo_avg \<mapsto> 1500, revert \<mapsto> 1 / 2] 1000 1000 (Num 0) (Some 0) (Some 0) 0 0 False
       = Inr (1250, 1250, 1250, 1250, 1 / 2)"
proof -
  have nan: "NaN = NaN \<or> NaN = Num 0" and tie: "Num 0 = NaN \<or> Num 0 = Num 0"
    by simp_all
  have v1: "calc_elo [elo_avg \<mapsto> 1500, revert \<mapsto> 1 / 2] 1000 1000 NaN (Some 0) (Some 0) 0 0 False
       = Inr (1250, 1250, 1250, 1250, 1 / 2)"
    by (simp add: calc_elo_no_result [OF nan, THEN conjunct1] shift_elo_pre_def getitem_def
        calc_pre_diff_def elo_probability_0)
  have v2: "calc_elo [elo_avg \<mapsto> 1500, revert \<mapsto> 1 / 2] 1000 1000 (Num 0) (Some 0) (Some 0) 0 0 False
       = Inr (1250, 1250, 1250, 1250, 1 / 2)"
    by (simp add: calc_elo_no_result [OF tie, THEN conjunct1] shift_elo_pre_def getitem_def
        calc_pre_diff_def elo_probability_0)
  show ?thesis using nan v1 v2 by blast
qed

subsection \<open>Replaying a season\<close>

text \<open>
  The loop of \<open>enrich_elo_vec\<close> and the accumulation of \<open>enrich_elo\<close> do the same from any
  ratings, any accumulated value and any results so far.
\<close>

lemma vec_loop_accumulate:
  "enrich_elo_vec_loop cfg te df acc =
     bnd (accumulate_from (wrapped cfg) te tot (map Vals df)) (\<lambda>(te', ys).
       bnd (to_array ys) (\<lambda>rs. Inr (acc @ rs)))"
proof (induction df arbitrary: te tot acc)
  case Nil
  then show ?case by simp
next
  case (Cons v df)
  show ?case
  proof (cases "wrapped cfg te tot (Vals v)")
    case (Inl e)
    then show ?thesis
      by (auto simp: wrapped_def Let_def bnd_def split: sum.splits prod.splits)
  next
    case (Inr p)
    then obtain te' r where p: "p = (te', Res r)"
      by (auto simp: wrapped_def Let_def bnd_Inr_iff split: prod.splits)
    have step: "enrich_elo_vec_loop cfg te (v # df) acc = enrich_elo_vec_loop cfg te' df (acc @ [r])"
      using Inr unfolding p
      by (auto simp: wrapped_def Let_def bnd_Inr_iff split: prod.splits)
    show ?thesis
      unfolding step Cons.IH [of te' "acc @ [r]" "Res r"]
      using Inr unfolding p
      by (cases "accumulate_from (wrapped cfg) te' (Res r) (map Vals df)")
         (auto simp: bnd_def split: sum.splits prod.splits)
  qed
qed

lemma enrich_elo_unfold:
  "enrich_elo df cfg =
     bnd (init_teams cfg (all_teams df) Map.empty) (\<lambda>te. enrich_elo_vec_loop cfg te df [])"
proof -
  have "bnd (accumulate (wrapped cfg) te (Zeros # map Vals df))
          (\<lambda>(te', results). to_array (tl results))
        = enrich_elo_vec_loop cfg te df []" for te :: "'a team_elos"
    unfolding vec_loop_accumulate [of cfg te df "[]" Zeros]
    by (cases "accumulate_from (wrapped cfg) te Zeros (map Vals df)")
       (auto simp: accumulate_def bnd_def split: sum.splits)
  then show ?thesis
    by (simp add: enrich_elo_def Let_def)
qed

text \<open>
  Claim C10. For every dataset and every configuration the accumulate-based replay and
  the plain-loop replay give the same outcome: the same exception, or the same sequence
  of results, row by row.
\<close>

theorem enrich_elo_eq_enrich_elo_vec:
  "enrich_elo df cfg = enrich_elo_vec df cfg"
  by (simp add: enrich_elo_unfold enrich_elo_vec_def)

text \<open>The replay of the example match, for some rest days of the second team.\<close>

lemma unique_AB: "unique [''A'', ''B''] = [''A'', ''B'']"
  by (simp add: unique_def)

lemma replay_example:
  "enrich_elo [example_row r] cfg =
     bnd (getitem cfg start) (\<lambda>s.
     bnd (calc_elo cfg s s (Num 1) (Some 1) (Some 1) 0 r True) (\<lambda>res. Inr [res]))"
proof (cases "cfg start")
  case None
  then show ?thesis
    by (simp add: enrich_elo_def all_teams_def unique_AB example_row_def getitem_def)
next
  case (Some s)
  then show ?thesis
    by (cases "calc_elo cfg s s (Num 1) (Some 1) (Some 1) 0 r True")
       (auto simp: enrich_elo_def all_teams_def unique_AB example_row_def getitem_def
         accumulate_def wrapped_def team_getitem_def Let_def split: prod.splits)
qed

lemma example_start: "getitem example_config start = Inr 1000"
  by (simp add: getitem_def example_config_def)

lemma calc_example_even:
  "calc_elo example_config 1000 1000 (Num 1) (Some 1) (Some 1) 0 0 True
     = Inr (1000, 1000, 1010, 990, 1 / 2)"
  by (simp add: calc_elo_def shift_elo_pre_def calc_pre_diff_def shift_elo_post_def
      truediv_def n_adj_def getitem_def example_config_def elo_probability_0 Let_def)

lemma enrich_example_ok:
  "enrich_elo [example_row 0] example_config = Inr [(1000, 1000, 1010, 990, 1 / 2)]"
  by (simp add: replay_example example_start calc_example_even)

lemma calc_example_zero_div:
  "calc_elo example_config 1000 1000 (Num 1) (Some 1) (Some 1) 0 35 True
     = Inl ZeroDivisionError"
  by (simp add: calc_elo_def shift_elo_pre_def calc_pre_diff_def shift_elo_post_def
      truediv_def getitem_def example_config_def Let_def)

lemma enrich_example_zero_div:
  "enrich_elo [example_row 35] example_config = Inl ZeroDivisionError"
  by (simp add: replay_example example_start calc_example_zero_div)

lemma overflow_310: "float_overflow (10 powr 310)"
  by (simp add: float_overflow_def)

lemma elo_probability_overflow: "elo_probability (- 124000) = Inl OverflowError"
  using overflow_310 by (simp add: elo_probability_def math_pow_def range_checked_def)

lemma calc_example_overflow:
  "calc_elo example_config 1000 1000 (Num 1) (Some 1) (Some 1) 0 6200 True
     = Inl OverflowError"
  by (simp add: calc_elo_def shift_elo_pre_def calc_pre_diff_def shift_elo_post_def
      truediv_def getitem_def example_config_def elo_probability_overflow Let_def)

lemma enrich_example_overflow:
  "enrich_elo [example_row 6200] example_config = Inl OverflowError"
  by (simp add: replay_example example_start calc_example_overflow)

subsection \<open>The gene space of the random search\<close>

lemma arange_bounds:
  assumes st: "0 < st" and ar: "arange lo hi st = Inr xs" and x: "x \<in> set xs"
  shows "lo \<le> x \<and> x < hi"
proof -
  from ar st x obtain k where k: "k < nat \<lceil>(hi - lo) / st\<rceil>" and xk: "x = lo + real k * st"
    by (auto simp: arange_def)
  from k have "int k < \<lceil>(hi - lo) / st\<rceil>" by linarith
  then have "real k < (hi - lo) / st"
    by (metis less_ceiling_iff of_int_of_nat_eq)
  then have "real k * st < hi - lo"
    using st by (simp add: pos_less_divide_eq)
  moreover have "0 \<le> real k * st" using st by simp
  ultimately show ?thesis using xk by linarith
qed

lemma arange_low_mem:
  assumes st: "0 < st" and lh: "lo < hi" and ar: "arange lo hi st = Inr xs"
  shows "lo \<in> set xs"
proof -
  have "0 < (hi - lo) / st" using st lh by simp
  then have "0 < nat \<lceil>(hi - lo) / st\<rceil>" by linarith
  then have "lo \<in> (\<lambda>k. lo + real k * st) ` {0 ..< nat \<lceil>(hi - lo) / st\<rceil>}"
    by (intro image_eqI [where x = 0]) simp_all
  then show ?thesis using ar st by (auto simp: arange_def)
qed

lemma step_pos: "0 < step (param_space g)"
  by (cases g) (simp_all add: space_dict_def)

lemma low_lt_high: "low (param_space g) < high (param_space g)"
  by (cases g) (simp_all add: space_dict_def)

lemma get_gene_space_total:
  "\<exists>spaces. get_gene_space gs = Inr spaces \<and> map fst spaces = gs \<and> list_all gene_ok spaces"
proof (induction gs)
  case Nil
  then show ?case by simp
next
  case (Cons g gs)
  then obtain spaces where sp: "get_gene_space gs = Inr spaces" "map fst spaces = gs"
      "list_all gene_ok spaces"
    by blast
  have "step (param_space g) \<noteq> 0" using step_pos [of g] by simp
  then obtain s where
    s: "arange (low (param_space g)) (high (param_space g)) (step (param_space g)) = Inr s"
    by (simp add: arange_def)
  then have "gene_ok (g, s)" by (simp add: gene_ok_def)
  then show ?case
    using sp s by (simp add: Let_def)
qed

lemma gene_ok_bounds:
  assumes "gene_ok (g, s)" and "x \<in> set s"
  shows "low (param_space g) \<le> x \<and> x < high (param_space g)"
proof -
  from assms(1) have
    "arange (low (param_space g)) (high (param_space g)) (step (param_space g)) = Inr s"
    by (simp add: gene_ok_def)
  from arange_bounds [OF step_pos this assms(2)] show ?thesis .
qed

lemma gene_ok_nonempty:
  assumes "gene_ok (g, s)"
  shows "low (param_space g) \<in> set s"
proof -
  from assms have
    "arange (low (param_space g)) (high (param_space g)) (step (param_space g)) = Inr s"
    by (simp add: gene_ok_def)
  from arange_low_mem [OF step_pos low_lt_high this] show ?thesis .
qed

lemma choice_mem: "s \<noteq> [] \<Longrightarrow> \<exists>v. choice rnd s = Inr v \<and> v \<in> set s"
  by (simp add: choice_def)

lemma choice_Inr_mem: "choice rnd s = Inr v \<Longrightarrow> v \<in> set s"
  by (auto simp: choice_def split: if_splits)

lemma draw_config_total:
  "list_all gene_ok spaces \<Longrightarrow> \<exists>config. draw_config rnd spaces c0 = Inr config"
proof (induction spaces arbitrary: c0)
  case Nil
  then show ?case by simp
next
  case (Cons p spaces)
  obtain g s where p: "p = (g, s)" by (cases p)
  from Cons.prems p have "s \<noteq> []" using gene_ok_nonempty [of g s] by auto
  then obtain v where "choice (rnd g) s = Inr v" using choice_mem by blast
  then show ?case using Cons p by simp
qed

lemma draw_config_values:
  "draw_config rnd spaces c0 = Inr config \<Longrightarrow> config g = Some v \<Longrightarrow>
     c0 g = Some v \<or> (\<exists>s. (g, s) \<in> set spaces \<and> v \<in> set s)"
proof (induction spaces arbitrary: c0)
  case Nil
  then show ?case by simp
next
  case (Cons p spaces)
  obtain g' s' where p: "p = (g', s')" by (cases p)
  from Cons.prems(1) p obtain v' where v': "choice (rnd g') s' = Inr v'"
    and rest: "draw_config rnd spaces (c0(g' \<mapsto> v')) = Inr config"
    by (auto simp: bnd_Inr_iff)
  from Cons.IH [OF rest Cons.prems(2)]
  show ?case using p choice_Inr_mem [OF v'] by (auto split: if_splits)
qed

lemma draw_config_dom:
  "draw_config rnd spaces c0 = Inr config \<Longrightarrow> dom config = dom c0 \<union> fst ` set spaces"
proof (induction spaces arbitrary: c0)
  case Nil
  then show ?case by simp
next
  case (Cons p spaces)
  obtain g' s' where p: "p = (g', s')" by (cases p)
  from Cons.prems(1) p obtain v' where
    rest: "draw_config rnd spaces (c0(g' \<mapsto> v')) = Inr config"
    by (auto simp: bnd_Inr_iff)
  from Cons.IH [OF rest] show ?case using p by auto
qed

lemma set_all_params: "set all_params = UNIV"
proof -
  have "g \<in> set all_params" for g by (cases g) (simp_all add: all_params_def)
  then show ?thesis by blast
qed

text \<open>
  Claim C9. The gene space of the random search is built without an exception; every
  candidate value in it lies in the closed interval from \<open>low\<close> to \<open>high\<close> of its own
  hyperparameter; and every draw gives a configuration that has a value for each of the
  hyperparameters, each inside that interval.
\<close>

theorem proposed_values_in_range:
  "\<exists>spaces. get_gene_space all_params = Inr spaces
     \<and> (\<forall>g s x. (g, s) \<in> set spaces \<longrightarrow> x \<in> set s \<longrightarrow>
           low (param_space g) \<le> x \<and> x \<le> high (param_space g))
     \<and> (\<forall>rnd. \<exists>config. draw_config rnd spaces Map.empty = Inr config
           \<and> (\<forall>g. \<exists>v. config g = Some v
                 \<and> low (param_space g) \<le> v \<and> v \<le> high (param_space g)))"
proof -
  obtain spaces where sp: "get_gene_space all_params = Inr spaces"
    and keys: "map fst spaces = all_params" and ok: "list_all gene_ok spaces"
    using get_gene_space_total [of all_params] by blast
  have in_range: "low (param_space g) \<le> x \<and> x \<le> high (param_space g)"
    if "(g, s) \<in> set spaces" "x \<in> set s" for g s x
  proof -
    from ok that(1) have "gene_ok (g, s)" by (auto simp: list_all_iff)
    from gene_ok_bounds [OF this that(2)] show ?thesis by simp
  qed
  have draws: "\<exists>config. draw_config rnd spaces Map.empty = Inr config
           \<and> (\<forall>g. \<exists>v. config g = Some v
                 \<and> low (param_space g) \<le> v \<and> v \<le> high (param_space g))" for rnd
  proof -
    obtain config where c: "draw_config rnd spaces Map.empty = Inr config"
      using draw_config_total [OF ok] by blast
    have "fst ` set spaces = UNIV"
      using keys set_all_params by (metis set_map)
    then have d: "dom config = UNIV" using draw_config_dom [OF c] by simp
    have "\<exists>v. config g = Some v \<and> low (param_space g) \<le> v \<and> v \<le> high (param_space g)" for g
    proof -
      from d obtain v where v: "config g = Some v" by auto
      from draw_config_values [OF c v] obtain s where "(g, s) \<in> set spaces" "v \<in> set s"
        by auto
      then show ?thesis using v in_range by blast
    qed
    then show ?thesis using c by blast
  qed
  show ?thesis using sp in_range draws by blast
qed

text \<open>
  The gene space holds a range for \<open>k_start\<close>; 2 is a candidate in it, and lies between the
  declared bounds 2 and 60.
\<close>

theorem proposed_values_in_range_witness:
  "\<exists>spaces s. get_gene_space all_params = Inr spaces
     \<and> (k_start, s) \<in> set spaces \<and> 2 \<in> set s
     \<and> low (param_space k_start) \<le> 2 \<and> 2 \<le> high (param_space k_start)"
proof -
  from proposed_values_in_range obtain spaces where
    sp: "get_gene_space all_params = Inr spaces"
    and rng: "\<forall>g s x. (g, s) \<in> set spaces \<longrightarrow> x \<in> set s \<longrightarrow>
           low (param_space g) \<le> x \<and> x \<le> high (param_space g)"
    by blast
  from get_gene_space_total [of all_params] sp have
    keys: "map fst spaces = all_params" and ok: "list_all gene_ok spaces"
    by auto
  have "k_start \<in> set (map fst spaces)"
    unfolding keys by (simp add: all_params_def)
  then obtain s where s: "(k_start, s) \<in> set spaces" by auto
  with ok have "gene_ok (k_start, s)" by (auto simp: list_all_iff)
  from gene_ok_nonempty [OF this] have two: "2 \<in> set s" by (simp add: space_dict_def)
  from rng s two have "low (param_space k_start) \<le> 2 \<and> 2 \<le> high (param_space k_start)"
    by blast
  with sp s two show ?thesis by blast
qed

text \<open>The draw of the example configuration from the gene space.\<close>

lemma choice_arange:
  assumes "arange lo hi st = Inr s" and "st \<noteq> 0" and "k < nat \<lceil>(hi - lo) / st\<rceil>"
  shows "choice k s = Inr (lo + real k * st)"
proof -
  from assms(1,2) have s: "s = map (\<lambda>k. lo + real k * st) [0 ..< nat \<lceil>(hi - lo) / st\<rceil>]"
    by (simp add: arange_def)
  from assms(3) have n: "length s = nat \<lceil>(hi - lo) / st\<rceil>" "k < length s"
    by (simp_all add: s)
  then have "s \<noteq> []" by auto
  moreover have "s ! (k mod length s) = lo + real k * st"
    using n assms(3) by (simp add: s)
  ultimately show ?thesis
    by (simp add: choice_def)
qed

lemma draw_config_at:
  assumes "list_all gene_ok spaces"
    and "\<forall>g. rnd g < nat \<lceil>(high (param_space g) - low (param_space g)) / step (param_space g)\<rceil>"
    and "draw_config rnd spaces c0 = Inr config"
  shows "config g =
           (if g \<in> fst ` set spaces
            then Some (low (param_space g) + real (rnd g) * step (param_space g))
            else c0 g)"
  using assms(1,3)
proof (induction spaces arbitrary: c0)
  case Nil
  then show ?case by simp
next
  case (Cons p spaces)
  obtain g' s' where p: "p = (g', s')" by (cases p)
  from Cons.prems(1) p have ar:
    "arange (low (param_space g')) (high (param_space g')) (step (param_space g')) = Inr s'"
    by (simp add: gene_ok_def)
  have "step (param_space g') \<noteq> 0" using step_pos [of g'] by simp
  from choice_arange [OF ar this] assms(2)
  have ch: "choice (rnd g') s'
              = Inr (low (param_space g') + real (rnd g') * step (param_space g'))"
    by blast
  from Cons.prems(2) p ch have rest:
    "draw_config rnd spaces
       (c0(g' \<mapsto> low (param_space g') + real (rnd g') * step (param_space g'))) = Inr config"
    by simp
  from Cons.prems(1) have "list_all gene_ok spaces" by simp
  from Cons.IH [OF this rest] show ?case using p by auto
qed

lemma example_draw_in_range:
  "example_draw g
     < nat \<lceil>(high (param_space g) - low (param_space g)) / step (param_space g)\<rceil>"
  by (cases g) (simp_all add: space_dict_def)

lemma example_draw_config:
  assumes "get_gene_space all_params = Inr spaces"
  shows "draw_config example_draw spaces Map.empty = Inr example_config"
proof -
  from get_gene_space_total [of all_params] assms have
    keys: "map fst spaces = all_params" and ok: "list_all gene_ok spaces"
    by auto
  obtain config where c: "draw_config example_draw spaces Map.empty = Inr config"
    using draw_config_total [OF ok] by blast
  have all: "fst ` set spaces = UNIV"
    using keys set_all_params by (metis set_map)
  have "config g = example_config g" for g
  proof -
    have "config g
            = Some (low (param_space g) + real (example_draw g) * step (param_space g))"
      using draw_config_at [OF ok _ c, of g] example_draw_in_range all by simp
    then show ?thesis
      by (cases g) (simp_all add: space_dict_def example_config_def)
  qed
  then have "config = example_config" by (rule ext)
  with c show ?thesis by simp
qed

subsection \<open>The fitness function and the best solution\<close>

lemma score_le_trans: "score_le a b \<Longrightarrow> score_le b c \<Longrightarrow> score_le a c"
  by (cases a; cases b; cases c) (simp_all add: score_le_def)

lemma score_gt_le: "score_gt b a \<Longrightarrow> score_le a b"
  by (cases a; cases b) (simp_all add: score_le_def)

lemma score_le_refl: "score_le a a"
  by (cases a) (simp_all add: score_le_def)

lemma fitness_func_raises:
  assumes "forecaster (meta_data model) solution = Inl e"
  shows "fitness_func forecaster metrics model solution =
           (model\<lparr>meta_i := meta_i model + 1\<rparr>,
            if e = OverflowError then Inr NegInf else Inl e)"
  using assms by (simp add: fitness_func_def fitness_check_def resume_def Let_def)

text \<open>
  One call that runs alone either leaves the best scores and the best configuration as
  they were, or records a score strictly greater than the best so far, which is then the
  score it returns.
\<close>

lemma fitness_func_step:
  assumes "fitness_func fc mt m sol = (m', out)"
  shows "(meta_best m' = meta_best m \<and> meta_best_config m' = meta_best_config m)
         \<or> (\<exists>sc. best_score (meta_best m') = Score sc
               \<and> score_gt (Score sc) (best_score (meta_best m))
               \<and> (\<forall>s. out = Inr s \<longrightarrow> s = Score sc))"
  using assms
  by (auto simp: fitness_func_def fitness_check_def resume_def fitness_record_def Let_def
      split: sum.splits if_splits)

lemma fitness_func_mono:
  assumes "fitness_func fc mt m sol = (m', out)"
  shows "score_le (best_score (meta_best m)) (best_score (meta_best m'))"
  using fitness_func_step [OF assms] by (auto intro: score_gt_le score_le_refl)

lemma evaluations_ge:
  "x \<in> set (evaluations fc mt m sols) \<Longrightarrow>
     score_le (best_score (meta_best m)) (best_score (meta_best x))"
proof (induction sols arbitrary: m)
  case Nil
  then show ?case by simp
next
  case (Cons sol sols)
  obtain m' out where f: "fitness_func fc mt m sol = (m', out)"
    by (cases "fitness_func fc mt m sol")
  have step: "score_le (best_score (meta_best m)) (best_score (meta_best m'))"
    by (rule fitness_func_mono [OF f])
  show ?case
  proof (cases out)
    case (Inl e)
    with Cons.prems f step show ?thesis by simp
  next
    case (Inr s)
    with Cons.prems f have "x = m' \<or> x \<in> set (evaluations fc mt m' sols)" by simp
    then show ?thesis
      using step Cons.IH [of m'] score_le_trans by blast
  qed
qed

text \<open>
  Calls that run one after another, as in \<open>random_optimize\<close>: the best score never
  decreases along the sequence.
\<close>

lemma evaluations_sorted:
  "sorted_wrt score_le (map (\<lambda>x. best_score (meta_best x)) (m # evaluations fc mt m sols))"
proof (induction sols arbitrary: m)
  case Nil
  then show ?case by simp
next
  case (Cons sol sols)
  obtain m' out where f: "fitness_func fc mt m sol = (m', out)"
    by (cases "fitness_func fc mt m sol")
  have ge: "\<forall>x\<in>set (evaluations fc mt m (sol # sols)).
              score_le (best_score (meta_best m)) (best_score (meta_best x))"
    using evaluations_ge by blast
  have "sorted_wrt score_le
          (map (\<lambda>x. best_score (meta_best x)) (evaluations fc mt m (sol # sols)))"
  proof (cases out)
    case (Inl e)
    with f show ?thesis by simp
  next
    case (Inr s)
    with f Cons.IH [of m'] show ?thesis by simp
  qed
  with ge show ?case by simp
qed

lemma optimize_loop_mono:
  "optimize_loop mt spaces m draws = Inr m' \<Longrightarrow>
     score_le (best_score (meta_best m)) (best_score (meta_best m'))"
proof (induction draws arbitrary: m)
  case Nil
  then show ?case by (simp add: score_le_refl)
next
  case (Cons rnd draws)
  from Cons.prems obtain config where
    c: "(case fitness_func enrich_elo mt m config of
           (model', Inl e) \<Rightarrow> Inl e
         | (model', Inr score) \<Rightarrow> optimize_loop mt spaces model' draws) = Inr m'"
    by (auto simp: bnd_Inr_iff)
  obtain m1 out where f0: "fitness_func enrich_elo mt m config = (m1, out)"
    by (cases "fitness_func enrich_elo mt m config")
  from c f0 obtain s where
    f: "fitness_func enrich_elo mt m config = (m1, Inr s)"
    and rest: "optimize_loop mt spaces m1 draws = Inr m'"
    by (cases out) simp_all
  from fitness_func_mono [OF f] Cons.IH [OF rest] show ?case
    by (rule score_le_trans)
qed

text \<open>
  The two example configurations on the example match with 20 rest days for the second
  team: the first predicts a win of the first team with probability 1/11, the second
  with 10/11.
\<close>

lemma not_overflow_10: "\<not> float_overflow 10" "\<not> float_overflow (1 / 10)"
  by (simp_all add: float_overflow_def)

lemma elo_probability_400:
  "elo_probability (- 400) = Inr (1 / 11)" "elo_probability 400 = Inr (10 / 11)"
  using not_overflow_10
  by (simp_all add: elo_probability_def math_pow_def range_checked_def powr_neg_one)

lemma example_config_full: "tuple_to_dict example_config all_params = Inr example_config"
  by (simp add: tuple_to_dict_def all_params_def getitem_def example_config_def)

lemma example_config2_full: "tuple_to_dict example_config2 all_params = Inr example_config2"
  by (simp add: tuple_to_dict_def all_params_def getitem_def example_config2_def)

lemma example_start2: "getitem example_config2 start = Inr 1000"
  by (simp add: getitem_def example_config2_def)

lemma calc_example_20:
  "calc_elo example_config 1000 1000 (Num 1) (Some 1) (Some 1) 0 20 True
     = Inr (1000, 1000, 1000 + 1400 / 33, 1000 - 1400 / 33, 1 / 11)"
  by (simp add: calc_elo_def shift_elo_pre_def calc_pre_diff_def shift_elo_post_def
      truediv_def n_adj_def getitem_def example_config_def elo_probability_400 Let_def)

lemma calc_example2_20:
  "calc_elo example_config2 1000 1000 (Num 1) (Some 1) (Some 1) 0 20 True
     = Inr (1000, 1000, 1000 + 140 / 121, 1000 - 140 / 121, 10 / 11)"
  by (simp add: calc_elo_def shift_elo_pre_def calc_pre_diff_def shift_elo_post_def
      truediv_def n_adj_def getitem_def example_config2_def elo_probability_400 Let_def)

lemma enrich_example_20:
  "enrich_elo [example_row 20] example_config
     = Inr [(1000, 1000, 1000 + 1400 / 33, 1000 - 1400 / 33, 1 / 11)]"
  "enrich_elo [example_row 20] example_config2
     = Inr [(1000, 1000, 1000 + 140 / 121, 1000 - 140 / 121, 10 / 11)]"
  by (simp_all add: replay_example example_start example_start2 calc_example_20
      calc_example2_20)

lemma example_win1: "win1 (example_row r) = 1" "meta_data (ModelMeta_init d) = d"
  by (simp_all add: example_row_def ModelMeta_init_def)

lemma check_example_20:
  "best_score (meta_best m) = NegInf \<Longrightarrow> meta_data m = [example_row 20] \<Longrightarrow>
   fitness_check enrich_elo example_metrics m example_config
     = (m\<lparr>meta_i := meta_i m + 1, meta_valid := meta_valid m + 1\<rparr>,
        Improved (21 / 121) [1 / 11] [0])"
  "best_score (meta_best m) = NegInf \<Longrightarrow> meta_data m = [example_row 20] \<Longrightarrow>
   fitness_check enrich_elo example_metrics m example_config2
     = (m\<lparr>meta_i := meta_i m + 1, meta_valid := meta_valid m + 1\<rparr>,
        Improved (120 / 121) [10 / 11] [1])"
  by (simp_all add: fitness_check_def Let_def enrich_example_20 last_column_def
      example_metrics_def example_win1 np_round_def power2_eq_square)

lemma record_example:
  "meta_data m = [example_row 20] \<Longrightarrow>
   fitness_record example_metrics m example_config (21 / 121) [1 / 11] [0]
     = (m\<lparr>meta_best := \<lparr>best_score = Score (21 / 121), best_r2 = Some (21 / 121),
                          best_ll = Some 1, best_ac = Some 1\<rparr>,
          meta_best_config := Some example_config\<rparr>, Inr (Score (21 / 121)))"
  "meta_data m = [example_row 20] \<Longrightarrow>
   fitness_record example_metrics m example_config2 (120 / 121) [10 / 11] [1]
     = (m\<lparr>meta_best := \<lparr>best_score = Score (120 / 121), best_r2 = Some (120 / 121),
                          best_ll = Some 1, best_ac = Some 1\<rparr>,
          meta_best_config := Some example_config2\<rparr>, Inr (Score (120 / 121)))"
  by (simp_all add: fitness_record_def Let_def example_metrics_def example_config_full
      example_config2_full)

lemma overlapped_example:
  "overlapped enrich_elo example_metrics (ModelMeta_init [example_row 20])
     example_config example_config2
   = (\<lparr>meta_i = 2, meta_valid = 2,
       meta_best = \<lparr>best_score = Score (120 / 121), best_r2 = Some (120 / 121),
                    best_ll = Some 1, best_ac = Some 1\<rparr>,
       meta_best_config = Some example_config2, meta_data = [example_row 20]\<rparr>,
      \<lparr>meta_i = 2, meta_valid = 2,
       meta_best = \<lparr>best_score = Score (21 / 121), best_r2 = Some (21 / 121),
                    best_ll = Some 1, best_ac = Some 1\<rparr>,
       meta_best_config = Some example_config, meta_data = [example_row 20]\<rparr>)"
  by (simp add: overlapped_def check_example_20 record_example resume_def ModelMeta_init_def)

lemma sequential_example:
  "map (\<lambda>x. best_score (meta_best x))
     (evaluations enrich_elo example_metrics (ModelMeta_init [example_row 20])
        [example_config2, example_config])
   = [Score (120 / 121), Score (120 / 121)]"
proof -
  let ?m0 = "ModelMeta_init [example_row 20] :: string ModelMeta"
  let ?m1 = "?m0\<lparr>meta_i := 1, meta_valid := 1,
      meta_best := \<lparr>best_score = Score (120 / 121), best_r2 = Some (120 / 121),
                     best_ll = Some 1, best_ac = Some 1\<rparr>,
      meta_best_config := Some example_config2\<rparr>"
  have f1: "fitness_func enrich_elo example_metrics ?m0 example_config2
              = (?m1, Inr (Score (120 / 121)))"
    by (simp add: fitness_func_def check_example_20 record_example resume_def
        ModelMeta_init_def)
  have f2: "fitness_func enrich_elo example_metrics ?m1 example_config
              = (?m1\<lparr>meta_i := 2, meta_valid := 2\<rparr>, Inr (Score (21 / 121)))"
    by (simp add: fitness_func_def fitness_check_def resume_def Let_def enrich_example_20
        last_column_def example_metrics_def example_win1 power2_eq_square ModelMeta_init_def)
  have e1: "evaluations enrich_elo example_metrics ?m0 [example_config2, example_config]
              = ?m1 # evaluations enrich_elo example_metrics ?m1 [example_config]"
    by (simp only: evaluations.simps(2) f1 prod.case sum.case)
  have e2: "evaluations enrich_elo example_metrics ?m1 [example_config]
              = [?m1\<lparr>meta_i := 2, meta_valid := 2\<rparr>]"
    by (simp only: evaluations.simps f2 prod.case sum.case)
  show ?thesis
    unfolding e1 e2 by (simp add: ModelMeta_init_def)
qed


subsection \<open>Exceptions of the replay in the fitness function\<close>




end
